theory Spec2Isabelle
  imports Main "HOL-Library.Word"
begin

section \<open>Types that files.go and parse.go take from the rest of the package\<close>

text \<open>
  \<open>SymbolLocReq\<close> and \<open>symbolInfo\<close> are built field by field in
  \<open>getSymbolFromCursor\<close>; the fields are the ones that function fills.
\<close>

record SymbolLocReq =
  File :: string
  Line :: int
  Col :: int

record symbolInfo =
  name :: string
  usr :: string
  loc :: SymbolLocReq

text \<open>
  Modelled from the spec: the type \<open>symbolsTUDB\<close>, its constructor
  \<open>newSymbolsTUDB\<close> and its methods \<open>InsertSymbolDecl\<close>,
  \<open>InsertSymbolDeclWithDef\<close>, \<open>InsertSymbolUse\<close> and \<open>InsertHeader\<close> are
  defined outside files.go and parse.go. The spec describes a snapshot as the file
  path, the file's modification time at parse time, a list of (declaration,
  optional definition) pairs, a list of (use-site, declaration, is-call flag) pairs
  and a list of (inclusion-directive name, included file) pairs. Each method adds
  one entry at the end of its list. The declaration of a use is optional because
  \<open>getSymbolFromCursor\<close> returns \<open>nil\<close> for a null cursor.
\<close>

record symbolsTUDB =
  File :: string
  Time :: int
  Decls :: "(symbolInfo \<times> symbolInfo option) list"
  Uses :: "(symbolInfo \<times> symbolInfo option \<times> bool) list"
  Headers :: "(string \<times> string) list"

definition newSymbolsTUDB :: "string \<Rightarrow> int \<Rightarrow> symbolsTUDB" where
  "newSymbolsTUDB file mtime =
     \<lparr> symbolsTUDB.File = file, Time = mtime, Decls = [], Uses = [], Headers = [] \<rparr>"

definition InsertSymbolDecl :: "symbolInfo \<Rightarrow> symbolsTUDB \<Rightarrow> symbolsTUDB" where
  "InsertSymbolDecl symb db = db\<lparr>Decls := Decls db @ [(symb, None)]\<rparr>"

definition InsertSymbolDeclWithDef ::
  "symbolInfo \<Rightarrow> symbolInfo \<Rightarrow> symbolsTUDB \<Rightarrow> symbolsTUDB" where
  "InsertSymbolDeclWithDef symb defn db = db\<lparr>Decls := Decls db @ [(symb, Some defn)]\<rparr>"

definition InsertSymbolUse ::
  "symbolInfo \<Rightarrow> symbolInfo option \<Rightarrow> bool \<Rightarrow> symbolsTUDB \<Rightarrow> symbolsTUDB" where
  "InsertSymbolUse symb dec funcCall db = db\<lparr>Uses := Uses db @ [(symb, dec, funcCall)]\<rparr>"

definition InsertHeader :: "string \<Rightarrow> string \<Rightarrow> symbolsTUDB \<Rightarrow> symbolsTUDB" where
  "InsertHeader inclPath inclFile db = db\<lparr>Headers := Headers db @ [(inclPath, inclFile)]\<rparr>"

section \<open>The parse scheduler of files.go\<close>

text \<open>
  A Go \<open>map[string]bool\<close> is a partial map: reading a missing key gives
  \<open>false\<close>, \<open>len\<close> counts the keys, \<open>delete\<close> removes a key.
\<close>

type_synonym goBoolMap = "string \<rightharpoonup> bool"

definition lookupB :: "goBoolMap \<Rightarrow> string \<Rightarrow> bool" where
  "lookupB m k = (case m k of None \<Rightarrow> False | Some b \<Rightarrow> b)"

definition lenMap :: "goBoolMap \<Rightarrow> int" where
  "lenMap m = int (card (dom m))"

definition deleteKey :: "goBoolMap \<Rightarrow> string \<Rightarrow> goBoolMap" where
  "deleteKey m k = m(k := None)"

text \<open>
  \<open>toParseMap\<close>, \<open>toParseQueue\<close>, \<open>inFlight\<close> and \<open>nIndexingThreads\<close> are
  the package variables of the same names. \<open>parsing\<close> holds the paths that the
  \<open>parseFiles\<close> goroutines have received from the channel \<open>parseFile\<close> and
  whose result the event loop has not yet taken from \<open>doneFile\<close>.
  \<open>dbInserted\<close> is the sequence of snapshots handed to \<open>db.InsertTUDB\<close>
  (the database is defined outside files.go). \<open>stuck\<close> records that the
  event loop waits forever in a send on \<open>parseFile\<close>.
\<close>

record sched =
  toParseMap :: goBoolMap
  toParseQueue :: "string list"
  inFlight :: goBoolMap
  nIndexingThreads :: int
  parsing :: "string list"
  dbInserted :: "symbolsTUDB list"
  stuck :: bool

text \<open>The part of \<open>startFilesHandler\<close> that sets up the scheduler.\<close>

definition startFilesHandler :: "int \<Rightarrow> sched" where
  "startFilesHandler inputIndexThreads =
     \<lparr> toParseMap = Map.empty, toParseQueue = [], inFlight = Map.empty,
       nIndexingThreads = inputIndexThreads, parsing = [], dbInserted = [],
       stuck = False \<rparr>"

text \<open>
  \<open>parseFile <- filePath\<close>: the channel is unbuffered and \<open>handleFiles\<close> starts
  \<open>nIndexingThreads\<close> goroutines that receive from it, each of them busy from
  the receive until the event loop has taken its result. The send completes when
  one of them is free; otherwise the event loop, the only receiver of
  \<open>doneFile\<close>, blocks for good.
\<close>

definition sendParseFile :: "string \<Rightarrow> sched \<Rightarrow> sched" where
  "sendParseFile filePath s =
     (if int (length (parsing s)) < nIndexingThreads s
      then s\<lparr>parsing := parsing s @ [filePath]\<rparr>
      else s\<lparr>stuck := True\<rparr>)"

definition queueFileToParse :: "string \<Rightarrow> sched \<Rightarrow> sched" where
  "queueFileToParse filePath s =
     (if lenMap (inFlight s) < nIndexingThreads s \<and> \<not> lookupB (inFlight s) filePath
      then sendParseFile filePath (s\<lparr>inFlight := (inFlight s)(filePath \<mapsto> True)\<rparr>)
      else if \<not> lookupB (toParseMap s) filePath
      then s\<lparr>toParseMap := (toParseMap s)(filePath \<mapsto> True),
             toParseQueue := toParseQueue s @ [filePath]\<rparr>
      else s)"

definition doneFileToParse :: "symbolsTUDB \<Rightarrow> sched \<Rightarrow> sched" where
  "doneFileToParse tudb s =
     (let s1 = (if \<not> lookupB (toParseMap s) (symbolsTUDB.File tudb)
                then s\<lparr>dbInserted := dbInserted s @ [tudb]\<rparr> else s);
          s2 = s1\<lparr>inFlight := deleteKey (inFlight s1) (symbolsTUDB.File tudb)\<rparr>
      in case toParseQueue s2 of
           [] \<Rightarrow> s2
         | filePath # rest \<Rightarrow>
             sendParseFile filePath
               (s2\<lparr>toParseQueue := rest,
                   toParseMap := deleteKey (toParseMap s2) filePath,
                   inFlight := (inFlight s2)(filePath \<mapsto> True)\<rparr>))"

text \<open>
  The events of \<open>handleFiles\<close> that touch the scheduler. \<open>Request f\<close> is any
  event that ends in \<open>queueFileToParse f\<close>. \<open>Done tudb\<close> is the receive
  \<open>tudb := <-doneFile\<close> followed by \<open>doneFileToParse tudb\<close>: it needs a
  goroutine that holds the path of \<open>tudb\<close> (\<open>parseFiles\<close> answers a path
  with the snapshot \<open>Parse\<close> builds for it), and frees that goroutine. A
  stuck event loop handles no event.
\<close>

datatype event = Request string | Done symbolsTUDB

fun step :: "event \<Rightarrow> sched \<Rightarrow> sched option" where
  "step (Request f) s = (if stuck s then None else Some (queueFileToParse f s))"
| "step (Done tudb) s =
     (if stuck s \<or> symbolsTUDB.File tudb \<notin> set (parsing s) then None
      else Some (doneFileToParse tudb
                   (s\<lparr>parsing := remove1 (symbolsTUDB.File tudb) (parsing s)\<rparr>)))"

fun run :: "event list \<Rightarrow> sched \<Rightarrow> sched option" where
  "run [] s = Some s"
| "run (e # es) s = (case step e s of None \<Rightarrow> None | Some s' \<Rightarrow> run es s')"

definition reachable :: "int \<Rightarrow> sched \<Rightarrow> bool" where
  "reachable n s = (\<exists>es. run es (startFilesHandler n) = Some s)"

text \<open>What the proofs carry along a run: the in-flight paths are held by goroutines.\<close>

definition schedInv :: "sched \<Rightarrow> bool" where
  "schedInv s =
     (finite (dom (inFlight s)) \<and> lenMap (inFlight s) \<le> nIndexingThreads s \<and>
      (\<not> stuck s \<longrightarrow> dom (inFlight s) \<subseteq> set (parsing s) \<and>
                    int (length (parsing s)) \<le> nIndexingThreads s))"

text \<open>The backlog: the queue holds each path once, the map marks the queued paths.\<close>

definition backlogInv :: "sched \<Rightarrow> bool" where
  "backlogInv s =
     (distinct (toParseQueue s) \<and> dom (toParseMap s) = set (toParseQueue s) \<and>
      (\<forall>f \<in> set (toParseQueue s). lookupB (toParseMap s) f))"

section \<open>Library functions that parse.go calls\<close>

text \<open>
  The functions of Go's packages \<open>strings\<close> and \<open>path/filepath\<close> that
  parse.go uses, for Unix paths, after the documentation of those packages.
  Strings are byte strings. \<open>Fields\<close> splits around runs of white space; the
  white space modelled is the ASCII one (space, tab, line feed, vertical tab,
  form feed, carriage return).
\<close>

definition isSpace :: "char \<Rightarrow> bool" where
  "isSpace c = (c = CHR '' '' \<or> c = CHR 0x09 \<or> c = CHR 0x0A \<or> c = CHR 0x0B \<or>
                c = CHR 0x0C \<or> c = CHR 0x0D)"

fun fieldsFrom :: "string \<Rightarrow> string \<Rightarrow> string list" where
  "fieldsFrom [] w = (if w = [] then [] else [w])"
| "fieldsFrom (c # cs) w =
     (if isSpace c then (if w = [] then fieldsFrom cs [] else w # fieldsFrom cs [])
      else fieldsFrom cs (w @ [c]))"

definition Fields :: "string \<Rightarrow> string list" where
  "Fields s = fieldsFrom s []"

definition HasPrefix :: "string \<Rightarrow> string \<Rightarrow> bool" where
  "HasPrefix s pre = (take (length pre) s = pre)"

text \<open>\<open>strings.Replace(s, old, new, 1)\<close>: the first \<open>old\<close> in \<open>s\<close> becomes \<open>new\<close>.\<close>

fun Replace1 :: "string \<Rightarrow> string \<Rightarrow> string \<Rightarrow> string" where
  "Replace1 [] old new = (if old = [] then new else [])"
| "Replace1 (c # cs) old new =
     (if HasPrefix (c # cs) old then new @ drop (length old) (c # cs)
      else c # Replace1 cs old new)"

fun splitOn :: "char \<Rightarrow> string \<Rightarrow> string list" where
  "splitOn sep [] = [[]]"
| "splitOn sep (c # cs) =
     (if c = sep then [] # splitOn sep cs
      else (case splitOn sep cs of [] \<Rightarrow> [[c]] | w # ws \<Rightarrow> (c # w) # ws))"

fun joinSlash :: "string list \<Rightarrow> string" where
  "joinSlash [] = []"
| "joinSlash [e] = e"
| "joinSlash (e # e' # es) = e @ ''/'' @ joinSlash (e' # es)"

definition IsAbs :: "string \<Rightarrow> bool" where
  "IsAbs path = HasPrefix path ''/''"

text \<open>
  \<open>filepath.Clean\<close>: empty and \<open>.\<close> elements go; a \<open>..\<close> element takes the
  element before it with it, is dropped at the root, and stays at the start of a
  path that is not rooted. \<open>out\<close> is the output so far, last element first.
\<close>

fun cleanElems :: "bool \<Rightarrow> string list \<Rightarrow> string list \<Rightarrow> string list" where
  "cleanElems rooted [] out = rev out"
| "cleanElems rooted (e # es) out =
     (if e = [] \<or> e = ''.'' then cleanElems rooted es out
      else if e = ''..'' then
        (if out \<noteq> [] \<and> hd out \<noteq> ''..'' then cleanElems rooted es (tl out)
         else if \<not> rooted then cleanElems rooted es (''..'' # out)
         else cleanElems rooted es out)
      else cleanElems rooted es (e # out))"

definition Clean :: "string \<Rightarrow> string" where
  "Clean path =
     (if path = [] then ''.''
      else let out = cleanElems (IsAbs path) (splitOn CHR ''/'' path) []
           in if IsAbs path then ''/'' @ joinSlash out
              else if out = [] then ''.'' else joinSlash out)"

text \<open>\<open>filepath.Join\<close> of two elements: empty elements are ignored.\<close>

definition Join2 :: "string \<Rightarrow> string \<Rightarrow> string" where
  "Join2 a b =
     (if a = [] \<and> b = [] then []
      else if a = [] then Clean b
      else if b = [] then Clean a
      else Clean (a @ ''/'' @ b))"

text \<open>
  The process environment: \<open>getwd\<close> is what \<open>os.Getwd\<close> returns, \<open>None\<close>
  when it fails.
\<close>

definition Abs :: "string option \<Rightarrow> string \<Rightarrow> string option" where
  "Abs getwd path =
     (if IsAbs path then Some (Clean path)
      else case getwd of None \<Rightarrow> None | Some wd \<Rightarrow> Some (Join2 wd path))"

fun stripCommon :: "string list \<Rightarrow> string list \<Rightarrow> string list \<times> string list" where
  "stripCommon (b # bs) (t # ts) = (if b = t then stripCommon bs ts else (b # bs, t # ts))"
| "stripCommon bs ts = (bs, ts)"

definition pathElems :: "string \<Rightarrow> string list" where
  "pathElems path = filter (\<lambda>e. e \<noteq> []) (splitOn CHR ''/'' path)"

text \<open>
  \<open>filepath.Rel\<close>: both paths are cleaned and compared element by element; what
  is left of the base is climbed with \<open>..\<close>, what is left of the target is
  appended. It fails when only one of the two is rooted, or when the base goes on
  with \<open>..\<close> where the two part.
\<close>

definition Rel :: "string \<Rightarrow> string \<Rightarrow> string option" where
  "Rel basepath targpath =
     (let base = Clean basepath; targ = Clean targpath in
      if targ = base then Some ''.''
      else let base' = (if base = ''.'' then [] else base) in
        if IsAbs base' \<noteq> IsAbs targ then None
        else case stripCommon (pathElems base') (pathElems targ) of
          (bs, ts) \<Rightarrow>
            if bs \<noteq> [] \<and> ts \<noteq> [] \<and> hd bs = ''..'' then None
            else Some (joinSlash (map (\<lambda>_. ''..'') bs @ ts)))"

section \<open>The compilation arguments of parse.go\<close>

text \<open>The ways in which the code of parse.go stops the process.\<close>

datatype error =
    IndexOutOfRange
  | GetwdFailed
  | AbsFailed
  | RelFailed
  | OpenPermission
  | DecodeFailed

record compArgs =
  Directory :: string
  Command :: string
  File :: string

definition fixCompDirArg :: "string option \<Rightarrow> string \<Rightarrow> string \<Rightarrow> error + string" where
  "fixCompDirArg getwd argDir path =
     (if IsAbs path then
        (if IsAbs argDir then Inr argDir
         else case Abs getwd argDir of
                None \<Rightarrow> Inl AbsFailed
              | Some absDir \<Rightarrow> Inr (Clean absDir))
      else if IsAbs argDir then
        (case getwd of
           None \<Rightarrow> Inl GetwdFailed
         | Some wd \<Rightarrow>
             (case Rel wd argDir of
                None \<Rightarrow> Inl RelFailed
              | Some rel \<Rightarrow> Inr (Clean rel)))
      else Inr (Clean (path @ ''/'' @ argDir)))"

text \<open>
  The loop of \<open>getCompArgs\<close> over \<open>argsList\<close>: the list argument is
  \<open>argsList[i:]\<close>, so that \<open>argsList[i+1]\<close> is the head of its tail and is out
  of range when the tail is empty.
\<close>

fun getCompArgsLoop ::
  "string option \<Rightarrow> string \<Rightarrow> string list \<Rightarrow> string list \<Rightarrow> error + string list" where
  "getCompArgsLoop getwd path [] args = Inr args"
| "getCompArgsLoop getwd path (arg # rest) args =
     (if arg = ''-D'' then
        (case rest of
           [] \<Rightarrow> Inl IndexOutOfRange
         | nxt # _ \<Rightarrow> getCompArgsLoop getwd path rest (args @ [arg, nxt]))
      else if HasPrefix arg ''-D'' then getCompArgsLoop getwd path rest (args @ [arg])
      else if arg = ''-I'' then
        (case rest of
           [] \<Rightarrow> Inl IndexOutOfRange
         | nxt # _ \<Rightarrow>
             (case fixCompDirArg getwd nxt path of
                Inl e \<Rightarrow> Inl e
              | Inr argDir \<Rightarrow> getCompArgsLoop getwd path rest (args @ [''-I'', argDir])))
      else if HasPrefix arg ''-I'' then
        (case fixCompDirArg getwd (Replace1 arg ''-I'' []) path of
           Inl e \<Rightarrow> Inl e
         | Inr argDir \<Rightarrow> getCompArgsLoop getwd path rest (args @ [''-I'', argDir]))
      else getCompArgsLoop getwd path rest args)"

definition getCompArgs :: "string option \<Rightarrow> string \<Rightarrow> string \<Rightarrow> error + string list" where
  "getCompArgs getwd command path = getCompArgsLoop getwd path (Fields command) []"

fun fixPathsLoop :: "string \<Rightarrow> compArgs list \<Rightarrow> error + compArgs list" where
  "fixPathsLoop wd [] = Inr []"
| "fixPathsLoop wd (ca # cas) =
     (case Rel wd (compArgs.File ca) of
        None \<Rightarrow> Inl RelFailed
      | Some rel \<Rightarrow>
          (case fixPathsLoop wd cas of
             Inl e \<Rightarrow> Inl e
           | Inr cas' \<Rightarrow> Inr (ca\<lparr>compArgs.File := Clean rel\<rparr> # cas')))"

definition fixPaths :: "string option \<Rightarrow> compArgs list \<Rightarrow> string \<Rightarrow> error + compArgs list" where
  "fixPaths getwd cas path =
     (if IsAbs path then Inr cas
      else case getwd of
             None \<Rightarrow> Inl GetwdFailed
           | Some wd \<Rightarrow> fixPathsLoop wd cas)"

record parse =
  cas :: "string \<rightharpoonup> string list"

text \<open>
  What \<open>os.Open\<close> and the JSON decoder give for one
  \<open>compile_commands.json\<close>: the open fails, with an error that
  \<open>os.IsPermission\<close> accepts or with another one (the file is not there), or it
  succeeds and the content decodes to a list of entries or does not decode.
\<close>

datatype compDbFile =
    OpenFailsPermission
  | OpenFailsOther
  | Undecodable
  | Decodes "compArgs list"

text \<open>The loop \<open>for _, ca := range cas\<close> of \<open>newParser\<close>.\<close>

fun indexCompArgs ::
  "string option \<Rightarrow> string \<Rightarrow> compArgs list \<Rightarrow> (string \<rightharpoonup> string list)
     \<Rightarrow> error + (string \<rightharpoonup> string list)" where
  "indexCompArgs getwd path [] m = Inr m"
| "indexCompArgs getwd path (ca # rest) m =
     (case getCompArgs getwd (Command ca) path of
        Inl e \<Rightarrow> Inl e
      | Inr args \<Rightarrow> indexCompArgs getwd path rest (m(compArgs.File ca \<mapsto> args)))"

text \<open>The loop \<open>for _, path := range inputDirs\<close> of \<open>newParser\<close>.\<close>

fun newParserLoop ::
  "string option \<Rightarrow> (string \<Rightarrow> compDbFile) \<Rightarrow> string list \<Rightarrow> (string \<rightharpoonup> string list)
     \<Rightarrow> error + parse" where
  "newParserLoop getwd fs [] m = Inr \<lparr>cas = m\<rparr>"
| "newParserLoop getwd fs (path # rest) m =
     (case fs (path @ ''/compile_commands.json'') of
        OpenFailsPermission \<Rightarrow> Inl OpenPermission
      | OpenFailsOther \<Rightarrow> newParserLoop getwd fs rest m
      | Undecodable \<Rightarrow> Inl DecodeFailed
      | Decodes entries \<Rightarrow>
          (case fixPaths getwd entries path of
             Inl e \<Rightarrow> Inl e
           | Inr entries' \<Rightarrow>
               (case indexCompArgs getwd path entries' m of
                  Inl e \<Rightarrow> Inl e
                | Inr m' \<Rightarrow> newParserLoop getwd fs rest m')))"

definition newParser ::
  "string option \<Rightarrow> (string \<Rightarrow> compDbFile) \<Rightarrow> string list \<Rightarrow> error + parse" where
  "newParser getwd fs inputDirs = newParserLoop getwd fs inputDirs Map.empty"

section \<open>The translation-unit parser of parse.go\<close>

text \<open>
  The cursor tree that libclang returns. A cursor answers \<open>IsNull\<close>,
  \<open>Kind\<close>, \<open>Spelling\<close>, \<open>USR\<close> and \<open>Location().FileLocation()\<close>; a
  visited cursor also has a definition cursor, a referenced cursor, an included
  file and children. \<open>Cursor_Other\<close> stands for every kind that the switch of
  \<open>visitNode\<close> does not name.
\<close>

datatype cursorKind =
    Cursor_FunctionDecl | Cursor_StructDecl | Cursor_FieldDecl
  | Cursor_TypedefDecl | Cursor_EnumDecl | Cursor_EnumConstantDecl
  | Cursor_MacroDefinition | Cursor_VarDecl | Cursor_ParmDecl
  | Cursor_CallExpr | Cursor_DeclRefExpr | Cursor_TypeRef
  | Cursor_MemberRefExpr | Cursor_MacroExpansion
  | Cursor_InclusionDirective | Cursor_Other

record cursorData =
  IsNull :: bool
  Kind :: cursorKind
  Spelling :: string
  USR :: string
  LocationFile :: string
  LocationLine :: "32 word"
  LocationCol :: "32 word"

datatype cursor =
  Cursor (self: cursorData) (Definition: cursorData) (Referenced: cursorData)
         (IncludedFile: string) (children: "cursor list")

record translationUnit =
  TranslationUnitCursor :: "cursor list"
  FileTime :: int

definition getSymbolFromCursor :: "cursorData \<Rightarrow> symbolInfo option" where
  "getSymbolFromCursor c =
     (if IsNull c then None
      else Some \<lparr> name = Spelling c, usr = USR c,
                  loc = \<lparr> SymbolLocReq.File = Clean (LocationFile c),
                          Line = uint (LocationLine c),
                          Col = uint (LocationCol c) \<rparr> \<rparr>)"

datatype childVisitResult = ChildVisit_Continue | ChildVisit_Recurse

text \<open>The switch of \<open>visitNode\<close> on the kind of the cursor.\<close>

definition insertCursor :: "cursor \<Rightarrow> symbolInfo \<Rightarrow> symbolsTUDB \<Rightarrow> symbolsTUDB" where
  "insertCursor cursor cur db =
     (let k = Kind (self cursor) in
      if k = Cursor_FunctionDecl \<or> k = Cursor_StructDecl \<or> k = Cursor_FieldDecl \<or>
         k = Cursor_TypedefDecl \<or> k = Cursor_EnumDecl \<or> k = Cursor_EnumConstantDecl then
        (case getSymbolFromCursor (Definition cursor) of
           Some defn \<Rightarrow> InsertSymbolDeclWithDef cur defn db
         | None \<Rightarrow> InsertSymbolDecl cur db)
      else if k = Cursor_MacroDefinition then InsertSymbolDeclWithDef cur cur db
      else if k = Cursor_VarDecl then InsertSymbolDecl cur db
      else if k = Cursor_ParmDecl then
        (if Spelling (self cursor) \<noteq> [] then InsertSymbolDecl cur db else db)
      else if k = Cursor_CallExpr then
        InsertSymbolUse cur (getSymbolFromCursor (Referenced cursor)) True db
      else if k = Cursor_DeclRefExpr \<or> k = Cursor_TypeRef \<or> k = Cursor_MemberRefExpr \<or>
              k = Cursor_MacroExpansion then
        InsertSymbolUse cur (getSymbolFromCursor (Referenced cursor)) False db
      else if k = Cursor_InclusionDirective then
        InsertHeader (Spelling (self cursor)) (IncludedFile cursor) db
      else db)"

definition visitNode :: "cursor \<Rightarrow> symbolsTUDB \<Rightarrow> childVisitResult \<times> symbolsTUDB" where
  "visitNode cursor db =
     (case getSymbolFromCursor (self cursor) of
        None \<Rightarrow> (ChildVisit_Continue, db)
      | Some cur \<Rightarrow>
          (let curFile = SymbolLocReq.File (loc cur) in
           if curFile = [] \<or> curFile = ''.'' then (ChildVisit_Continue, db)
           else (ChildVisit_Recurse, insertCursor cursor cur db)))"

text \<open>
  \<open>Visit\<close>: the children of a cursor in order; \<open>ChildVisit_Recurse\<close> visits
  the children of the child before its next sibling, \<open>ChildVisit_Continue\<close>
  goes on with the next sibling.
\<close>

function Visit :: "cursor list \<Rightarrow> symbolsTUDB \<Rightarrow> symbolsTUDB" where
  "Visit [] db = db"
| "Visit (c # cs) db =
     (case visitNode c db of
        (ChildVisit_Continue, db') \<Rightarrow> Visit cs db'
      | (ChildVisit_Recurse, db') \<Rightarrow> Visit cs (Visit (children c) db'))"
  by pat_completeness auto
termination
proof (relation "measure (\<lambda>(cs, db). size_list size cs)")
  fix c :: cursor and cs :: "cursor list" and db x2 :: symbolsTUDB
  have "size_list size (children c) < size c" by (cases c) simp
  then show "((children c, x2), c # cs, db) \<in> measure (\<lambda>(cs, db). size_list size cs)"
    by simp
qed simp_all

text \<open>
  \<open>Parse\<close>; \<open>clang\<close> is \<open>idx.ParseTranslationUnit\<close>, which gives for a
  file and its arguments the cursors below the translation unit's cursor and the
  time of the file.
\<close>

definition parseArgs :: "parse \<Rightarrow> string \<Rightarrow> string list" where
  "parseArgs pa file = (case cas pa file of None \<Rightarrow> [] | Some args \<Rightarrow> args)"

definition Parse ::
  "(string \<Rightarrow> string list \<Rightarrow> translationUnit) \<Rightarrow> parse \<Rightarrow> string \<Rightarrow> symbolsTUDB" where
  "Parse clang pa file =
     (let tu = clang file (parseArgs pa file)
      in Visit (TranslationUnitCursor tu) (newSymbolsTUDB file (FileTime tu)))"

section \<open>The specification's side\<close>

text \<open>
  The classification table of the specification: what one cursor inside the tree
  adds to the snapshot. Declarations of functions, structs, fields, typedefs,
  enums and enum constants carry their definition when the cursor has one;
  a macro definition is its own definition; a variable is a declaration only; a
  parameter is a declaration only, and only when it is named; a call is a use
  with the call flag; direct, type and member references and macro expansions
  are uses without it; an inclusion directive is a header edge; every other kind
  adds nothing.
\<close>

datatype snapshotEntry =
    DeclWithDef symbolInfo symbolInfo
  | DeclOnly symbolInfo
  | Use symbolInfo "symbolInfo option" bool
  | HeaderEdge string string

definition declEntry :: "cursor \<Rightarrow> symbolInfo \<Rightarrow> snapshotEntry" where
  "declEntry c cur =
     (case getSymbolFromCursor (Definition c) of
        None \<Rightarrow> DeclOnly cur
      | Some d \<Rightarrow> DeclWithDef cur d)"

fun classifyKind :: "cursorKind \<Rightarrow> cursor \<Rightarrow> symbolInfo \<Rightarrow> snapshotEntry option" where
  "classifyKind Cursor_FunctionDecl c cur = Some (declEntry c cur)"
| "classifyKind Cursor_StructDecl c cur = Some (declEntry c cur)"
| "classifyKind Cursor_FieldDecl c cur = Some (declEntry c cur)"
| "classifyKind Cursor_TypedefDecl c cur = Some (declEntry c cur)"
| "classifyKind Cursor_EnumDecl c cur = Some (declEntry c cur)"
| "classifyKind Cursor_EnumConstantDecl c cur = Some (declEntry c cur)"
| "classifyKind Cursor_MacroDefinition c cur = Some (DeclWithDef cur cur)"
| "classifyKind Cursor_VarDecl c cur = Some (DeclOnly cur)"
| "classifyKind Cursor_ParmDecl c cur =
     (if Spelling (self c) = [] then None else Some (DeclOnly cur))"
| "classifyKind Cursor_CallExpr c cur =
     Some (Use cur (getSymbolFromCursor (Referenced c)) True)"
| "classifyKind Cursor_DeclRefExpr c cur =
     Some (Use cur (getSymbolFromCursor (Referenced c)) False)"
| "classifyKind Cursor_TypeRef c cur =
     Some (Use cur (getSymbolFromCursor (Referenced c)) False)"
| "classifyKind Cursor_MemberRefExpr c cur =
     Some (Use cur (getSymbolFromCursor (Referenced c)) False)"
| "classifyKind Cursor_MacroExpansion c cur =
     Some (Use cur (getSymbolFromCursor (Referenced c)) False)"
| "classifyKind Cursor_InclusionDirective c cur =
     Some (HeaderEdge (Spelling (self c)) (IncludedFile c))"
| "classifyKind Cursor_Other c cur = None"

fun addEntry :: "snapshotEntry option \<Rightarrow> symbolsTUDB \<Rightarrow> symbolsTUDB" where
  "addEntry None db = db"
| "addEntry (Some (DeclWithDef d f)) db = db\<lparr>Decls := Decls db @ [(d, Some f)]\<rparr>"
| "addEntry (Some (DeclOnly d)) db = db\<lparr>Decls := Decls db @ [(d, None)]\<rparr>"
| "addEntry (Some (Use u d isCall)) db = db\<lparr>Uses := Uses db @ [(u, d, isCall)]\<rparr>"
| "addEntry (Some (HeaderEdge n f)) db = db\<lparr>Headers := Headers db @ [(n, f)]\<rparr>"

text \<open>
  A recorded symbol has a file when its location's file is neither empty nor the
  current-directory marker; a snapshot is well sited when the site of each of its
  declarations and uses has one.
\<close>

definition inTree :: "symbolInfo \<Rightarrow> bool" where
  "inTree s = (SymbolLocReq.File (loc s) \<noteq> [] \<and> SymbolLocReq.File (loc s) \<noteq> ''.'')"

definition sitesInTree :: "symbolsTUDB \<Rightarrow> bool" where
  "sitesInTree db =
     ((\<forall>e \<in> set (Decls db). inTree (fst e)) \<and> (\<forall>e \<in> set (Uses db). inTree (fst e)))"




definition endsBare :: "string list \<Rightarrow> bool" where
  "endsBare toks = (toks \<noteq> [] \<and> (last toks = ''-D'' \<or> last toks = ''-I''))"

section \<open>Example inputs\<close>

text \<open>
  Three roots: \<open>proj\<close> has a database with one entry, built in
  \<open>/w/proj/build\<close>; the database of \<open>locked\<close> cannot be opened for lack of
  permission; the one of \<open>broken\<close> is not JSON; any other root has none.
\<close>

definition exampleDb :: "string \<Rightarrow> compDbFile" where
  "exampleDb p =
     (if p = ''proj/compile_commands.json''
      then Decodes [\<lparr> Directory = ''/w/proj/build'', Command = ''gcc -I../inc -c x.c'',
                       compArgs.File = ''/w/proj/x.c'' \<rparr>]
      else if p = ''locked/compile_commands.json'' then OpenFailsPermission
      else if p = ''broken/compile_commands.json'' then Undecodable
      else OpenFailsOther)"

text \<open>
  Cursors: the null cursor; the declaration of \<open>stdin\<close> in a system header; a
  function \<open>main\<close> defined in \<open>/proj/a.c\<close>; a cursor without a file. The
  example translation unit holds the declaration of \<open>stdin\<close>.
\<close>

definition nullCursor :: cursorData where
  "nullCursor =
     \<lparr> IsNull = True, Kind = Cursor_Other, Spelling = [], USR = [],
       LocationFile = [], LocationLine = 0, LocationCol = 0 \<rparr>"

definition stdinDecl :: cursor where
  "stdinDecl =
     Cursor \<lparr> IsNull = False, Kind = Cursor_VarDecl, Spelling = ''stdin'',
              USR = ''c:@stdin'', LocationFile = ''/usr/include/stdio.h'',
              LocationLine = 135, LocationCol = 25 \<rparr>
            nullCursor nullCursor [] []"

definition mainData :: cursorData where
  "mainData =
     \<lparr> IsNull = False, Kind = Cursor_FunctionDecl, Spelling = ''main'',
       USR = ''c:@F@main'', LocationFile = ''/proj/a.c'',
       LocationLine = 3, LocationCol = 5 \<rparr>"

definition mainDecl :: cursor where
  "mainDecl = Cursor mainData mainData nullCursor [] []"

definition mainSym :: symbolInfo where
  "mainSym =
     \<lparr> name = ''main'', usr = ''c:@F@main'',
       loc = \<lparr> SymbolLocReq.File = ''/proj/a.c'', Line = 3, Col = 5 \<rparr> \<rparr>"

definition builtinDecl :: cursor where
  "builtinDecl =
     Cursor \<lparr> IsNull = False, Kind = Cursor_MacroDefinition, Spelling = ''__STDC__'',
              USR = ''c:@macro@__STDC__'', LocationFile = [],
              LocationLine = 0, LocationCol = 0 \<rparr>
            nullCursor nullCursor [] [stdinDecl]"

definition exampleClang :: "string \<Rightarrow> string list \<Rightarrow> translationUnit" where
  "exampleClang file args = \<lparr> TranslationUnitCursor = [stdinDecl], FileTime = 0 \<rparr>"

section \<open>Properties of the scheduler\<close>

lemma sendParseFile_fields [simp]:
  "inFlight (sendParseFile f s) = inFlight s"
  "toParseMap (sendParseFile f s) = toParseMap s"
  "toParseQueue (sendParseFile f s) = toParseQueue s"
  "nIndexingThreads (sendParseFile f s) = nIndexingThreads s"
  "dbInserted (sendParseFile f s) = dbInserted s"
  by (simp_all add: sendParseFile_def)

lemma card_le_length: "A \<subseteq> set xs \<Longrightarrow> int (card A) \<le> int (length xs)"
proof -
  assume "A \<subseteq> set xs"
  then have "card A \<le> card (set xs)" by (simp add: card_mono)
  also have "\<dots> \<le> length xs" by (rule card_length)
  finally show ?thesis by simp
qed

lemma card_insert_bound: "finite A \<Longrightarrow> int (card A) < n \<Longrightarrow> int (card (insert x A)) \<le> n"
  by (simp add: card_insert_if)

lemma queueFileToParse_schedInv:
  assumes "schedInv s" "\<not> stuck s"
  shows "schedInv (queueFileToParse f s)"
proof (cases "lenMap (inFlight s) < nIndexingThreads s \<and> \<not> lookupB (inFlight s) f")
  case True
  have fin: "finite (dom (inFlight s))" using assms by (simp add: schedInv_def)
  have sub: "dom (inFlight s) \<subseteq> set (parsing s)" using assms by (simp add: schedInv_def)
  have bound: "int (card (insert f (dom (inFlight s)))) \<le> nIndexingThreads s"
    using True fin by (simp add: lenMap_def card_insert_bound)
  show ?thesis using True fin sub bound
    by (auto simp: schedInv_def queueFileToParse_def sendParseFile_def lenMap_def)
next
  case False
  then show ?thesis using assms
    by (auto simp: schedInv_def queueFileToParse_def)
qed

lemma doneFileToParse_schedInv:
  assumes "schedInv s" "\<not> stuck s" "symbolsTUDB.File t \<in> set (parsing s)"
  shows "schedInv (doneFileToParse t (s\<lparr>parsing := remove1 (symbolsTUDB.File t) (parsing s)\<rparr>))"
proof -
  let ?f = "symbolsTUDB.File t"
  let ?p = "remove1 ?f (parsing s)"
  have fin: "finite (dom (inFlight s))" using assms by (simp add: schedInv_def)
  have sub: "dom (inFlight s) \<subseteq> set (parsing s)" using assms by (simp add: schedInv_def)
  have len: "int (length (parsing s)) \<le> nIndexingThreads s" using assms by (simp add: schedInv_def)
  have len': "int (length ?p) < nIndexingThreads s"
  proof -
    have "0 < length (parsing s)" using assms(3) by (rule length_pos_if_in_set)
    then have "length ?p < length (parsing s)" using assms(3) by (simp add: length_remove1)
    then show ?thesis using len by linarith
  qed
  have sub': "dom (inFlight s) - {?f} \<subseteq> set ?p"
  proof
    fix x assume "x \<in> dom (inFlight s) - {?f}"
    then have "x \<in> set (parsing s)" "x \<noteq> ?f" using sub by auto
    then show "x \<in> set ?p" by simp
  qed
  show ?thesis
  proof (cases "toParseQueue s")
    case Nil
    have "int (card (dom (inFlight s) - {?f})) \<le> int (length ?p)"
      using sub' by (rule card_le_length)
    then show ?thesis using Nil fin sub' len'
      by (auto simp: schedInv_def doneFileToParse_def Let_def deleteKey_def lenMap_def)
  next
    case (Cons h rest)
    have "insert h (dom (inFlight s) - {?f}) \<subseteq> set (?p @ [h])" using sub' by auto
    then have "int (card (insert h (dom (inFlight s) - {?f}))) \<le> int (length (?p @ [h]))"
      by (rule card_le_length)
    then show ?thesis using Cons fin sub' len'
      by (auto simp: schedInv_def doneFileToParse_def Let_def deleteKey_def lenMap_def
            sendParseFile_def)
  qed
qed

lemma step_schedInv: "schedInv s \<Longrightarrow> step e s = Some s' \<Longrightarrow> schedInv s'"
  by (cases e) (auto split: if_splits simp: queueFileToParse_schedInv doneFileToParse_schedInv)

lemma run_schedInv: "schedInv s \<Longrightarrow> run es s = Some s' \<Longrightarrow> schedInv s'"
  by (induction es arbitrary: s) (auto split: option.splits dest: step_schedInv)

lemma step_nIndexingThreads: "step e s = Some s' \<Longrightarrow> nIndexingThreads s' = nIndexingThreads s"
  by (cases e)
     (auto split: if_splits list.splits simp: queueFileToParse_def doneFileToParse_def Let_def)

lemma run_nIndexingThreads: "run es s = Some s' \<Longrightarrow> nIndexingThreads s' = nIndexingThreads s"
  by (induction es arbitrary: s) (auto split: option.splits dest: step_nIndexingThreads)

lemma startFilesHandler_schedInv: "0 \<le> n \<Longrightarrow> schedInv (startFilesHandler n)"
  by (simp add: schedInv_def startFilesHandler_def lenMap_def)

lemma queueFileToParse_backlogInv:
  assumes "backlogInv s"
  shows "backlogInv (queueFileToParse f s)"
proof -
  have nq: "\<not> lookupB (toParseMap s) f \<Longrightarrow> f \<notin> set (toParseQueue s)"
    using assms by (auto simp: backlogInv_def)
  show ?thesis using assms nq
    by (auto simp: backlogInv_def queueFileToParse_def lookupB_def)
qed

lemma doneFileToParse_backlogInv:
  assumes "backlogInv s"
  shows "backlogInv (doneFileToParse t s)"
proof (cases "toParseQueue s")
  case Nil
  then show ?thesis using assms
    by (auto simp: backlogInv_def doneFileToParse_def Let_def)
next
  case (Cons h rest)
  then show ?thesis using assms
    by (auto simp: backlogInv_def doneFileToParse_def Let_def deleteKey_def lookupB_def)
qed

lemma backlogInv_parsing [simp]: "backlogInv (s\<lparr>parsing := p\<rparr>) = backlogInv s"
  by (simp add: backlogInv_def)

lemma step_backlogInv: "backlogInv s \<Longrightarrow> step e s = Some s' \<Longrightarrow> backlogInv s'"
  by (cases e)
     (auto split: if_splits simp: queueFileToParse_backlogInv doneFileToParse_backlogInv)

lemma run_backlogInv: "backlogInv s \<Longrightarrow> run es s = Some s' \<Longrightarrow> backlogInv s'"
  by (induction es arbitrary: s) (auto split: option.splits dest: step_backlogInv)

lemma startFilesHandler_backlogInv: "backlogInv (startFilesHandler n)"
  by (simp add: backlogInv_def startFilesHandler_def)

lemma backlogInv_lookupB:
  "backlogInv s \<Longrightarrow> lookupB (toParseMap s) f = (f \<in> set (toParseQueue s))"
  by (auto simp: backlogInv_def lookupB_def split: option.splits)

lemmas sched_eval =
  startFilesHandler_def queueFileToParse_def doneFileToParse_def sendParseFile_def
  lenMap_def lookupB_def deleteKey_def newSymbolsTUDB_def

text \<open>
  Claim C1, as the code has it. In every reachable state the backlog queue holds
  each path at most once and the membership map marks exactly the queued paths,
  and a request for a path that is neither in flight nor queued leaves it in
  exactly one of the in-flight set and the backlog. (A path can be in both: see
  the trace after the theorem.)
\<close>

theorem backlog_paths_once:
  "reachable n s \<Longrightarrow>
     distinct (toParseQueue s) \<and>
     (\<forall>f. lookupB (toParseMap s) f = (f \<in> set (toParseQueue s))) \<and>
     (\<forall>f. \<not> lookupB (inFlight s) f \<and> \<not> lookupB (toParseMap s) f \<longrightarrow>
          lookupB (inFlight (queueFileToParse f s)) f \<noteq>
          lookupB (toParseMap (queueFileToParse f s)) f)"
proof -
  assume "reachable n s"
  then obtain es where "run es (startFilesHandler n) = Some s" by (auto simp: reachable_def)
  then have inv: "backlogInv s" using run_backlogInv startFilesHandler_backlogInv by blast
  have "distinct (toParseQueue s)" using inv by (simp add: backlogInv_def)
  moreover have "\<forall>f. lookupB (toParseMap s) f = (f \<in> set (toParseQueue s))"
    using inv by (simp add: backlogInv_lookupB)
  moreover have "\<forall>f. \<not> lookupB (inFlight s) f \<and> \<not> lookupB (toParseMap s) f \<longrightarrow>
          lookupB (inFlight (queueFileToParse f s)) f \<noteq>
          lookupB (toParseMap (queueFileToParse f s)) f"
    by (auto simp: queueFileToParse_def lookupB_def)
  ultimately show ?thesis by blast
qed

text \<open>
  The theorem at the state after two requests for \<open>a.c\<close> with one worker, and
  a request for \<open>b.c\<close> there, which is then queued and not in flight.
\<close>

theorem backlog_paths_once_witness:
  "reachable 1 (queueFileToParse ''a.c'' (queueFileToParse ''a.c'' (startFilesHandler 1))) \<and>
   \<not> lookupB (inFlight (queueFileToParse ''a.c'' (queueFileToParse ''a.c''
        (startFilesHandler 1)))) ''b.c'' \<and>
   \<not> lookupB (toParseMap (queueFileToParse ''a.c'' (queueFileToParse ''a.c''
        (startFilesHandler 1)))) ''b.c'' \<and>
   distinct (toParseQueue (queueFileToParse ''a.c'' (queueFileToParse ''a.c''
        (startFilesHandler 1)))) \<and>
   lookupB (inFlight (queueFileToParse ''b.c'' (queueFileToParse ''a.c''
        (queueFileToParse ''a.c'' (startFilesHandler 1))))) ''b.c'' \<noteq>
   lookupB (toParseMap (queueFileToParse ''b.c'' (queueFileToParse ''a.c''
        (queueFileToParse ''a.c'' (startFilesHandler 1))))) ''b.c''"
proof -
  let ?s = "queueFileToParse ''a.c'' (queueFileToParse ''a.c'' (startFilesHandler 1))"
  have r: "reachable 1 ?s"
    unfolding reachable_def
    by (rule exI [of _ "[Request ''a.c'', Request ''a.c'']"]) (simp add: sched_eval)
  have h: "\<not> lookupB (inFlight ?s) ''b.c'' \<and> \<not> lookupB (toParseMap ?s) ''b.c''"
    by (simp add: sched_eval)
  show ?thesis using r h backlog_paths_once [OF r] by blast
qed

text \<open>
  Claim C1 as stated fails: with one worker, a second request for \<open>a.c\<close>
  while \<open>a.c\<close> is being parsed leaves \<open>a.c\<close> both in the in-flight set and
  in the backlog.
\<close>

theorem path_in_flight_and_queued:
  "(case run [Request ''a.c'', Request ''a.c''] (startFilesHandler 1) of
      None \<Rightarrow> False
    | Some s \<Rightarrow> lookupB (inFlight s) ''a.c'' \<and> lookupB (toParseMap s) ''a.c'' \<and>
                toParseQueue s = [''a.c''] \<and> parsing s = [''a.c''])"
  by (simp add: sched_eval)

text \<open>
  Claim C2, at a trace of the code. With two workers, \<open>a.c\<close> and \<open>b.c\<close> are
  dispatched, \<open>a.c\<close> is requested again and queued, and \<open>b.c\<close> completes:
  \<open>doneFileToParse\<close> pops \<open>a.c\<close> and dispatches it while its first parse is
  still running, so that two goroutines parse \<open>a.c\<close>.
\<close>

theorem doneFileToParse_dispatches_path_in_flight:
  "(case run [Request ''a.c'', Request ''b.c'', Request ''a.c'']
           (startFilesHandler 2) of
      None \<Rightarrow> False
    | Some s \<Rightarrow> parsing s = [''a.c'', ''b.c''] \<and> toParseQueue s = [''a.c''] \<and>
                lookupB (inFlight s) ''a.c'') \<and>
   (case run [Request ''a.c'', Request ''b.c'', Request ''a.c'',
              Done (newSymbolsTUDB ''b.c'' 0)] (startFilesHandler 2) of
      None \<Rightarrow> False
    | Some s \<Rightarrow> parsing s = [''a.c'', ''a.c''] \<and> \<not> stuck s \<and> toParseQueue s = [])"
  by (simp add: sched_eval)

text \<open>
  Claim C3. \<open>doneFileToParse\<close> hands the snapshot to the database if and only if
  the snapshot's file is not marked in the backlog map at that moment; when it is
  marked, the completion inserts nothing.
\<close>

theorem doneFileToParse_commits_unless_queued:
  "(dbInserted (doneFileToParse tudb s) = dbInserted s @ [tudb]) =
     (\<not> lookupB (toParseMap s) (symbolsTUDB.File tudb)) \<and>
   (lookupB (toParseMap s) (symbolsTUDB.File tudb) \<longrightarrow>
      dbInserted (doneFileToParse tudb s) = dbInserted s)"
  by (simp add: doneFileToParse_def Let_def split: list.split)

text \<open>
  The theorem at the completion of \<open>a.c\<close> after \<open>a.c\<close> was requested twice:
  the snapshot is stale and the database gets nothing.
\<close>

theorem doneFileToParse_commits_unless_queued_witness:
  "lookupB (toParseMap (queueFileToParse ''a.c'' (queueFileToParse ''a.c''
      (startFilesHandler 1)))) ''a.c'' \<and>
   dbInserted (doneFileToParse (newSymbolsTUDB ''a.c'' 0)
      (queueFileToParse ''a.c'' (queueFileToParse ''a.c'' (startFilesHandler 1)))) = []"
proof -
  let ?s = "queueFileToParse ''a.c'' (queueFileToParse ''a.c'' (startFilesHandler 1))"
  have q: "lookupB (toParseMap ?s) (symbolsTUDB.File (newSymbolsTUDB ''a.c'' 0))"
    by (simp add: sched_eval)
  have d: "dbInserted ?s = []" by (simp add: sched_eval)
  have "dbInserted (doneFileToParse (newSymbolsTUDB ''a.c'' 0) ?s) = dbInserted ?s"
    using doneFileToParse_commits_unless_queued [of "newSymbolsTUDB ''a.c'' 0" ?s] q by blast
  then show ?thesis using q d by (simp add: newSymbolsTUDB_def)
qed

text \<open>
  Claim C6. With a worker count \<open>n\<close> that is not negative, the in-flight set
  of every reachable state has at most \<open>n\<close> paths; a request changes the
  in-flight set only when it has fewer than \<open>n\<close> paths; after a completion
  the in-flight set holds at most the paths it held before, without the completed
  one, and the head of the backlog.
\<close>

theorem inFlight_at_most_workers:
  "0 \<le> n \<Longrightarrow> reachable n s \<Longrightarrow>
     lenMap (inFlight s) \<le> n \<and>
     (\<forall>f. inFlight (queueFileToParse f s) \<noteq> inFlight s \<longrightarrow> lenMap (inFlight s) < n) \<and>
     (\<forall>t. dom (inFlight (doneFileToParse t s)) \<subseteq>
            (dom (inFlight s) - {symbolsTUDB.File t}) \<union> set (take 1 (toParseQueue s)))"
proof -
  assume n: "0 \<le> n" and "reachable n s"
  then obtain es where es: "run es (startFilesHandler n) = Some s"
    by (auto simp: reachable_def)
  have inv: "schedInv s" using run_schedInv [OF startFilesHandler_schedInv [OF n] es] .
  have nn: "nIndexingThreads s = n"
    using run_nIndexingThreads [OF es] by (simp add: startFilesHandler_def)
  have "lenMap (inFlight s) \<le> n" using inv nn by (simp add: schedInv_def)
  moreover have "\<forall>f. inFlight (queueFileToParse f s) \<noteq> inFlight s \<longrightarrow> lenMap (inFlight s) < n"
    using nn by (auto simp: queueFileToParse_def)
  moreover have "\<forall>t. dom (inFlight (doneFileToParse t s)) \<subseteq>
            (dom (inFlight s) - {symbolsTUDB.File t}) \<union> set (take 1 (toParseQueue s))"
    by (auto simp: doneFileToParse_def Let_def deleteKey_def split: list.splits if_splits)
  ultimately show ?thesis by blast
qed

text \<open>
  The theorem with two workers, at the state after a request for \<open>a.c\<close>: a
  request for \<open>b.c\<close> changes the in-flight set, which has one path.
\<close>

theorem inFlight_at_most_workers_witness:
  "(0::int) \<le> 2 \<and>
   reachable 2 (queueFileToParse ''a.c'' (startFilesHandler 2)) \<and>
   inFlight (queueFileToParse ''b.c'' (queueFileToParse ''a.c'' (startFilesHandler 2))) \<noteq>
     inFlight (queueFileToParse ''a.c'' (startFilesHandler 2)) \<and>
   lenMap (inFlight (queueFileToParse ''a.c'' (startFilesHandler 2))) < 2"
proof -
  let ?s = "queueFileToParse ''a.c'' (startFilesHandler 2)"
  have r: "reachable 2 ?s"
    unfolding reachable_def
    by (rule exI [of _ "[Request ''a.c'']"]) (simp add: sched_eval)
  have "inFlight (queueFileToParse ''b.c'' ?s) ''b.c'' \<noteq> inFlight ?s ''b.c''"
    by (simp add: sched_eval)
  then have c: "inFlight (queueFileToParse ''b.c'' ?s) \<noteq> inFlight ?s" by metis
  have z: "(0::int) \<le> 2" by simp
  have "\<forall>f. inFlight (queueFileToParse f ?s) \<noteq> inFlight ?s \<longrightarrow> lenMap (inFlight ?s) < 2"
    using inFlight_at_most_workers [OF z r] by blast
  then have "lenMap (inFlight ?s) < 2" using c by blast
  then show ?thesis using z r c by blast
qed

text \<open>
  Claim C7, at a trace of the code. With three workers, \<open>a.c\<close> and \<open>c.c\<close>
  are each requested twice (dispatched, then queued) and \<open>c.c\<close> completes; the
  completion pops \<open>a.c\<close>, which is in flight. Now \<open>c.c\<close> is queued and not
  in flight and the in-flight set has room: a further request for \<open>c.c\<close>
  dispatches it and leaves it in the backlog, and the next completion dispatches
  it once more.
\<close>

theorem queueFileToParse_dispatches_queued_path:
  "(case run [Request ''a.c'', Request ''a.c'', Request ''c.c'', Request ''c.c'',
              Done (newSymbolsTUDB ''c.c'' 0)] (startFilesHandler 3) of
      None \<Rightarrow> False
    | Some s \<Rightarrow>
        lookupB (toParseMap s) ''c.c'' \<and> toParseQueue s = [''c.c''] \<and>
        parsing s = [''a.c'', ''a.c''] \<and>
        parsing (queueFileToParse ''c.c'' s) = [''a.c'', ''a.c'', ''c.c''] \<and>
        toParseQueue (queueFileToParse ''c.c'' s) = [''c.c'']) \<and>
   (case run [Request ''a.c'', Request ''a.c'', Request ''c.c'', Request ''c.c'',
              Done (newSymbolsTUDB ''c.c'' 0), Request ''c.c'',
              Done (newSymbolsTUDB ''a.c'' 0)] (startFilesHandler 3) of
      None \<Rightarrow> False
    | Some s \<Rightarrow> parsing s = [''a.c'', ''c.c'', ''c.c''] \<and> \<not> stuck s)"
  by (simp add: sched_eval)

text \<open>
  What does hold for repeated requests: a request for a queued path changes
  nothing when the in-flight set is full or the path is in flight, so that
  requests that follow one another queue a path once.
\<close>

lemma queueFileToParse_queued_unchanged:
  assumes "lookupB (toParseMap s) f"
    and "nIndexingThreads s \<le> lenMap (inFlight s) \<or> lookupB (inFlight s) f"
  shows "queueFileToParse f s = s"
  using assms by (auto simp: queueFileToParse_def)

lemma queueFileToParse_twice:
  assumes "nIndexingThreads s \<le> lenMap (inFlight s) \<or> lookupB (inFlight s) f"
  shows "queueFileToParse f (queueFileToParse f s) = queueFileToParse f s"
proof (cases "lookupB (toParseMap s) f")
  case True
  then have "queueFileToParse f s = s" using assms by (rule queueFileToParse_queued_unchanged)
  then show ?thesis by simp
next
  case False
  let ?s' = "s\<lparr>toParseMap := (toParseMap s)(f \<mapsto> True),
                toParseQueue := toParseQueue s @ [f]\<rparr>"
  have e: "queueFileToParse f s = ?s'" using False assms by (auto simp: queueFileToParse_def)
  have "lookupB (toParseMap ?s') f" by (simp add: lookupB_def)
  moreover have "nIndexingThreads ?s' \<le> lenMap (inFlight ?s') \<or> lookupB (inFlight ?s') f"
    using assms by simp
  ultimately have "queueFileToParse f ?s' = ?s'" by (rule queueFileToParse_queued_unchanged)
  then show ?thesis by (simp add: e)
qed

section \<open>Properties of the compilation arguments\<close>



lemma HasPrefix_self [simp]:
  "HasPrefix ''-D'' ''-D''" "HasPrefix ''-I'' ''-I''" "\<not> HasPrefix ''-I'' ''-D''"
  by (simp_all add: HasPrefix_def)

lemma endsBare_Cons:
  "endsBare (tok # rest) =
     (if rest = [] then tok = ''-D'' \<or> tok = ''-I'' else endsBare rest)"
  by (simp add: endsBare_def)


lemma getCompArgsLoop_endsBare:
  "endsBare toks \<Longrightarrow> \<exists>e. getCompArgsLoop getwd path toks args = Inl e"
proof (induction toks arbitrary: args)
  case Nil
  then show ?case by (simp add: endsBare_def)
next
  case (Cons tok rest)
  show ?case
  proof (cases rest)
    case Nil
    then show ?thesis using Cons.prems by (auto simp: endsBare_Cons)
  next
    case (Cons nxt rest')
    then have "endsBare rest" using Cons.prems by (simp add: endsBare_Cons)
    then have "\<exists>e. getCompArgsLoop getwd path rest a = Inl e" for a
      using Cons.IH by blast
    then show ?thesis using Cons by (auto split: sum.splits)
  qed
qed

lemma fixCompDirArg_no_index: "fixCompDirArg getwd d path \<noteq> Inl IndexOutOfRange"
  by (auto simp: fixCompDirArg_def split: option.splits)

lemma getCompArgsLoop_index_step:
  "getCompArgsLoop getwd path (tok # rest) args = Inl IndexOutOfRange \<Longrightarrow>
     (rest = [] \<and> (tok = ''-D'' \<or> tok = ''-I'')) \<or>
     (\<exists>a. getCompArgsLoop getwd path rest a = Inl IndexOutOfRange)"
  unfolding getCompArgsLoop.simps(2) [of getwd path tok rest args]
  by (auto simp del: getCompArgsLoop.simps simp: fixCompDirArg_no_index
        split: if_splits sum.splits list.splits)

lemma getCompArgsLoop_index:
  "getCompArgsLoop getwd path toks args = Inl IndexOutOfRange \<Longrightarrow> endsBare toks"
proof (induction toks arbitrary: args)
  case Nil
  then show ?case by simp
next
  case (Cons tok rest)
  from getCompArgsLoop_index_step [OF Cons.prems]
  show ?case
  proof
    assume "rest = [] \<and> (tok = ''-D'' \<or> tok = ''-I'')"
    then show ?thesis by (simp add: endsBare_Cons)
  next
    assume "\<exists>a. getCompArgsLoop getwd path rest a = Inl IndexOutOfRange"
    then have e: "endsBare rest" using Cons.IH by blast
    then have "rest \<noteq> []" by (simp add: endsBare_def)
    then show ?thesis using e by (simp add: endsBare_Cons)
  qed
qed






text \<open>
  Claim C9. A root whose database cannot be opened for a reason other than
  permission is skipped: the loop goes on with the mapping as it was, and when
  every root is like that the mapping is empty. A permission failure and an
  undecodable content both stop the process. A file without an entry in the
  mapping is parsed with the empty argument list.
\<close>

theorem newParser_failures:
  "(fs (absent @ ''/compile_commands.json'') = OpenFailsOther \<longrightarrow>
      newParserLoop getwd fs (absent # rest) m = newParserLoop getwd fs rest m) \<and>
   ((\<forall>p \<in> set inputDirs. fs (p @ ''/compile_commands.json'') = OpenFailsOther) \<longrightarrow>
      newParser getwd fs inputDirs = Inr \<lparr>cas = Map.empty\<rparr>) \<and>
   (fs (denied @ ''/compile_commands.json'') = OpenFailsPermission \<longrightarrow>
      newParserLoop getwd fs (denied # rest) m = Inl OpenPermission) \<and>
   (fs (malformed @ ''/compile_commands.json'') = Undecodable \<longrightarrow>
      newParserLoop getwd fs (malformed # rest) m = Inl DecodeFailed) \<and>
   (cas pa file = None \<longrightarrow>
      parseArgs pa file = [] \<and>
      Parse clang pa file =
        Visit (TranslationUnitCursor (clang file []))
              (newSymbolsTUDB file (FileTime (clang file []))))"
proof -
  have "(\<forall>p \<in> set inputDirs. fs (p @ ''/compile_commands.json'') = OpenFailsOther) \<longrightarrow>
      newParserLoop getwd fs inputDirs m' = Inr \<lparr>cas = m'\<rparr>" for m'
    by (induction inputDirs) simp_all
  then show ?thesis
    by (simp add: newParser_def parseArgs_def Parse_def Let_def)
qed

text \<open>
  The theorem at the example databases: the root \<open>lib\<close> has none, the one of
  \<open>locked\<close> cannot be opened, the one of \<open>broken\<close> does not decode, and
  \<open>/proj/a.c\<close> has no entry in the empty mapping.
\<close>

theorem newParser_failures_witness:
  "exampleDb (''lib'' @ ''/compile_commands.json'') = OpenFailsOther \<and>
   exampleDb (''locked'' @ ''/compile_commands.json'') = OpenFailsPermission \<and>
   exampleDb (''broken'' @ ''/compile_commands.json'') = Undecodable \<and>
   cas \<lparr>cas = Map.empty\<rparr> ''/proj/a.c'' = None \<and>
   newParser None exampleDb [''lib''] = Inr \<lparr>cas = Map.empty\<rparr> \<and>
   newParserLoop None exampleDb [''locked'', ''proj''] Map.empty = Inl OpenPermission \<and>
   newParserLoop None exampleDb [''broken'', ''proj''] Map.empty = Inl DecodeFailed \<and>
   parseArgs \<lparr>cas = Map.empty\<rparr> ''/proj/a.c'' = []"
proof -
  have h1: "exampleDb (''lib'' @ ''/compile_commands.json'') = OpenFailsOther"
    by (simp add: exampleDb_def)
  have h2: "\<forall>p \<in> set [''lib'']. exampleDb (p @ ''/compile_commands.json'') = OpenFailsOther"
    by (simp add: exampleDb_def)
  have h3: "exampleDb (''locked'' @ ''/compile_commands.json'') = OpenFailsPermission"
    by (simp add: exampleDb_def)
  have h4: "exampleDb (''broken'' @ ''/compile_commands.json'') = Undecodable"
    by (simp add: exampleDb_def)
  have h5: "cas \<lparr>cas = Map.empty\<rparr> ''/proj/a.c'' = None" by simp
  show ?thesis
    using h1 h2 h3 h4 h5
      newParser_failures [of exampleDb "''lib''" None "[''proj'']" Map.empty "[''lib'']"
        "''locked''" "''broken''" "\<lparr>cas = Map.empty\<rparr>" "''/proj/a.c''" exampleClang]
    by blast
qed

text \<open>
  Claim C10. A command whose last token is a bare \<open>-D\<close> or \<open>-I\<close> never
  yields an argument list; the index goes out of range only for such a command;
  and it does for \<open>gcc -c x.c -D\<close> and for \<open>gcc -c x.c -I\<close>.
\<close>

theorem getCompArgs_index_out_of_range:
  "(endsBare (Fields command) \<longrightarrow> (\<exists>e. getCompArgs getwd command path = Inl e)) \<and>
   (getCompArgs getwd command path = Inl IndexOutOfRange \<longrightarrow> endsBare (Fields command)) \<and>
   getCompArgs getwd ''gcc -c x.c -D'' path = Inl IndexOutOfRange \<and>
   getCompArgs getwd ''gcc -c x.c -I'' path = Inl IndexOutOfRange"
proof -
  have "getCompArgs getwd ''gcc -c x.c -D'' path = Inl IndexOutOfRange"
    by (simp add: getCompArgs_def Fields_def isSpace_def HasPrefix_def)
  moreover have "getCompArgs getwd ''gcc -c x.c -I'' path = Inl IndexOutOfRange"
    by (simp add: getCompArgs_def Fields_def isSpace_def HasPrefix_def)
  ultimately show ?thesis
    using getCompArgsLoop_endsBare getCompArgsLoop_index by (auto simp: getCompArgs_def)
qed

text \<open>The theorem at the command \<open>gcc -DFOO -I\<close> and the root \<open>/proj\<close>.\<close>

theorem getCompArgs_index_out_of_range_witness:
  "endsBare (Fields ''gcc -DFOO -I'') \<and>
   getCompArgs None ''gcc -DFOO -I'' ''/proj'' = Inl IndexOutOfRange"
proof -
  have h: "endsBare (Fields ''gcc -DFOO -I'')"
    by (simp add: Fields_def isSpace_def endsBare_def)
  have e: "getCompArgs None ''gcc -DFOO -I'' ''/proj'' = Inl IndexOutOfRange"
    by (simp add: getCompArgs_def Fields_def isSpace_def HasPrefix_def)
  show ?thesis
    using h e getCompArgs_index_out_of_range [of "''gcc -DFOO -I''" None "''/proj''"]
    by blast
qed

section \<open>Properties of the translation-unit parser\<close>

lemma insertCursor_classify:
  "insertCursor c cur db = addEntry (classifyKind (Kind (self c)) c cur) db"
  by (cases "Kind (self c)")
     (simp_all add: insertCursor_def declEntry_def InsertSymbolDecl_def
        InsertSymbolDeclWithDef_def InsertSymbolUse_def InsertHeader_def
        split: option.split)

lemma addEntry_sitesInTree:
  "sitesInTree db \<Longrightarrow> inTree cur \<Longrightarrow> sitesInTree (addEntry (classifyKind k c cur) db)"
  by (cases k) (auto simp: sitesInTree_def declEntry_def split: option.splits)

lemma visitNode_sitesInTree: "sitesInTree db \<Longrightarrow> sitesInTree (snd (visitNode c db))"
  by (auto simp: visitNode_def Let_def insertCursor_classify inTree_def [symmetric]
        intro: addEntry_sitesInTree split: option.splits)

lemma Visit_sitesInTree: "sitesInTree db \<Longrightarrow> sitesInTree (Visit cs db)"
proof (induction cs db rule: Visit.induct)
  case (1 db)
  then show ?case by simp
next
  case (2 c cs db)
  obtain r db' where v: "visitNode c db = (r, db')" by (cases "visitNode c db")
  have ok: "sitesInTree db'" using visitNode_sitesInTree [OF "2.prems", of c] v by simp
  show ?case
  proof (cases r)
    case ChildVisit_Continue
    then show ?thesis using v ok "2.IH"(1) by simp
  next
    case ChildVisit_Recurse
    then show ?thesis using v ok "2.IH"(2,3) by simp
  qed
qed

lemma Clean_dot: "Clean [] = ''.''" "Clean ''.'' = ''.''"
  by (simp_all add: Clean_def IsAbs_def HasPrefix_def)

lemmas parse_eval =
  Parse_def parseArgs_def exampleClang_def stdinDecl_def nullCursor_def mainDecl_def
  mainData_def mainSym_def builtinDecl_def visitNode_def getSymbolFromCursor_def
  insertCursor_def newSymbolsTUDB_def InsertSymbolDecl_def InsertSymbolDeclWithDef_def
  Clean_def IsAbs_def HasPrefix_def

text \<open>
  Claim C5, as the code has it. Every declaration and every use in the snapshot
  of a parse is sited at a location whose normalised file is neither empty nor
  the current-directory marker; and a cursor whose location file is empty or the
  current-directory marker adds nothing to the snapshot, nor do the cursors
  below it.
\<close>

theorem Parse_sites_have_file:
  "sitesInTree (Parse clang pa file) \<and>
   ((LocationFile (self c) = [] \<or> LocationFile (self c) = ''.'') \<longrightarrow>
      Visit (c # cs) db = Visit cs db)"
proof -
  have "sitesInTree (newSymbolsTUDB file t)" for t
    by (simp add: sitesInTree_def newSymbolsTUDB_def)
  then have "sitesInTree (Parse clang pa file)"
    by (simp add: Parse_def Let_def Visit_sitesInTree)
  moreover have "(LocationFile (self c) = [] \<or> LocationFile (self c) = ''.'') \<longrightarrow>
      Visit (c # cs) db = Visit cs db"
    by (auto simp: visitNode_def getSymbolFromCursor_def Clean_dot)
  ultimately show ?thesis by blast
qed

text \<open>
  The theorem at the example translation unit, whose snapshot has one
  declaration, and at the cursor without a file, which has a child.
\<close>

theorem Parse_sites_have_file_witness:
  "LocationFile (self builtinDecl) = [] \<and>
   Visit [builtinDecl] (newSymbolsTUDB ''/proj/a.c'' 0) = newSymbolsTUDB ''/proj/a.c'' 0 \<and>
   length (Decls (Parse exampleClang \<lparr>cas = Map.empty\<rparr> ''/proj/a.c'')) = 1 \<and>
   sitesInTree (Parse exampleClang \<lparr>cas = Map.empty\<rparr> ''/proj/a.c'')"
proof -
  have h: "LocationFile (self builtinDecl) = []" by (simp add: builtinDecl_def)
  have l: "length (Decls (Parse exampleClang \<lparr>cas = Map.empty\<rparr> ''/proj/a.c'')) = 1"
    by (simp add: parse_eval)
  have "Visit (builtinDecl # []) (newSymbolsTUDB ''/proj/a.c'' 0) =
        Visit [] (newSymbolsTUDB ''/proj/a.c'' 0)"
    using h Parse_sites_have_file [of exampleClang "\<lparr>cas = Map.empty\<rparr>" "''/proj/a.c''"
        builtinDecl "[]" "newSymbolsTUDB ''/proj/a.c'' 0"]
    by blast
  moreover have "sitesInTree (Parse exampleClang \<lparr>cas = Map.empty\<rparr> ''/proj/a.c'')"
    using Parse_sites_have_file [of exampleClang "\<lparr>cas = Map.empty\<rparr>" "''/proj/a.c''"
        builtinDecl "[]" "newSymbolsTUDB ''/proj/a.c'' 0"]
    by blast
  ultimately show ?thesis using h l by simp
qed

text \<open>
  Claim C5 as stated fails: the parse of \<open>/proj/a.c\<close> records the declaration
  of \<open>stdin\<close>, which lies in \<open>/usr/include/stdio.h\<close>, outside the root
  \<open>/proj\<close>.
\<close>

theorem Parse_records_outside_roots:
  "Decls (Parse exampleClang \<lparr>cas = Map.empty\<rparr> ''/proj/a.c'') =
     [(\<lparr> name = ''stdin'', usr = ''c:@stdin'',
          loc = \<lparr> SymbolLocReq.File = ''/usr/include/stdio.h'', Line = 135, Col = 25 \<rparr> \<rparr>,
       None)] \<and>
   \<not> HasPrefix ''/usr/include/stdio.h'' ''/proj''"
  by (simp add: parse_eval)



end
